theory Spec2Isabelle
  imports Main "HOL-Library.Word"
begin

unbundle bit_operations_syntax

section \<open>Machine types and constants of main.c\<close>

text \<open>
  The driver runs on a 32-bit target: \<open>uint8_t\<close>, \<open>uint16_t\<close> and \<open>uint32_t\<close> are words
  of that width, \<open>size_t\<close> is 32 bits wide, and the littlefs types \<open>lfs_block_t\<close>,
  \<open>lfs_off_t\<close> and \<open>lfs_size_t\<close> are \<open>uint32_t\<close>. \<open>esp_err_t\<close> and the \<open>int\<close> returned
  by the littlefs hooks are read as integers.
\<close>

type_synonym u8 = "8 word"
type_synonym u16 = "16 word"
type_synonym u32 = "32 word"
type_synonym size_t = "32 word"
type_synonym lfs_block_t = "32 word"
type_synonym lfs_off_t = "32 word"
type_synonym lfs_size_t = "32 word"
type_synonym esp_err_t = int

definition PAGE_SIZE :: u32 where
  "PAGE_SIZE = 2048"

definition PAGES_PER_BLOCK :: u32 where
  "PAGES_PER_BLOCK = 64"

definition BLOCK_SIZE :: u32 where
  "BLOCK_SIZE = PAGE_SIZE * PAGES_PER_BLOCK"

definition CMD_WRITE_ENABLE :: u8 where
  "CMD_WRITE_ENABLE = 0x06"

definition CMD_LOAD_PROGRAM :: u8 where
  "CMD_LOAD_PROGRAM = 0x02"

definition CMD_PROGRAM_EXECUTE :: u8 where
  "CMD_PROGRAM_EXECUTE = 0x10"

definition CMD_READ_STATUS :: u8 where
  "CMD_READ_STATUS = 0x0F"

definition CMD_PAGE_DATA_READ :: u8 where
  "CMD_PAGE_DATA_READ = 0x13"

definition CMD_READ_DATA :: u8 where
  "CMD_READ_DATA = 0x03"

definition CMD_BLOCK_ERASE :: u8 where
  "CMD_BLOCK_ERASE = 0xD8"

section \<open>The SPI bus and the scheduler as explicit state\<close>

text \<open>
  A transaction as the driver fills it in: \<open>.length\<close> and \<open>.rxlength\<close> in bits (a field the
  initialiser leaves out is 0) and the bytes found at \<open>.tx_buffer\<close>. The receive buffer
  is not part of the record: what a transfer leaves in it is the reply below.
\<close>

record spi_transaction_t =
  length_bits :: size_t
  rxlength :: size_t
  tx_buffer :: "u8 list"

text \<open>
  What one call of \<open>spi_device_transmit\<close> gives back: its \<open>esp_err_t\<close> and the bytes
  standing in the receive buffer afterwards, byte \<open>i\<close> at index \<open>i\<close>.
\<close>

record spi_reply =
  ret :: esp_err_t
  rx_data :: "nat \<Rightarrow> u8"

text \<open>
  Everything the driver does to the outside world, in program order: a transaction on
  the bus, or a call \<open>vTaskDelay(pdMS_TO_TICKS(ms))\<close>.
\<close>

datatype event = Transmit spi_transaction_t | VTaskDelay nat

text \<open>
  The state threaded through every driver function: the events so far, the number of
  transactions so far, and the chip together with the transport, given as the reply to the
  \<open>k\<close>-th transaction for every \<open>k\<close>. Any run of the driver against any hardware is
  covered by some such sequence of replies.
\<close>

record spi_bus =
  trace :: "event list"
  xfers :: nat
  chip :: "nat \<Rightarrow> spi_reply"

definition spi_device_transmit :: "spi_bus \<Rightarrow> spi_transaction_t \<Rightarrow> spi_reply \<times> spi_bus" where
  "spi_device_transmit s t =
     (chip s (xfers s), s\<lparr>trace := trace s @ [Transmit t], xfers := Suc (xfers s)\<rparr>)"

definition vTaskDelay :: "nat \<Rightarrow> spi_bus \<Rightarrow> spi_bus" where
  "vTaskDelay ms s = s\<lparr>trace := trace s @ [VTaskDelay ms]\<rparr>"

section \<open>NAND commands\<close>

definition wait_ready_txn :: spi_transaction_t where
  "wait_ready_txn = \<lparr>length_bits = 16, rxlength = 0, tx_buffer = [CMD_READ_STATUS, 0xC0]\<rparr>"

text \<open>
  \<open>wait_ready\<close> is a do-while loop with no exit but a clear bit 0 of \<open>status\<close>: transmit,
  delay, then test. It may run forever, which is the value \<open>None\<close>. The result of
  \<open>spi_device_transmit\<close> is dropped, as in the source.
\<close>

partial_function (option) wait_ready :: "spi_bus \<Rightarrow> spi_bus option" where
  "wait_ready s =
     (case spi_device_transmit s wait_ready_txn of
        (r, s1) \<Rightarrow>
          let s2 = vTaskDelay 1 s1;
              status = rx_data r 0
          in if status AND 0x01 \<noteq> 0 then wait_ready s2 else Some s2)"

definition write_enable :: "spi_bus \<Rightarrow> spi_bus" where
  "write_enable s =
     snd (spi_device_transmit s
            \<lparr>length_bits = 8, rxlength = 0, tx_buffer = [CMD_WRITE_ENABLE]\<rparr>)"

definition erase_block :: "u32 \<Rightarrow> spi_bus \<Rightarrow> spi_bus option" where
  "erase_block block s =
     (let s1 = write_enable s;
          row_addr = block * PAGES_PER_BLOCK;
          cmd = [CMD_BLOCK_ERASE, ucast (drop_bit 16 row_addr), ucast (drop_bit 8 row_addr),
                 ucast row_addr];
          s2 = snd (spi_device_transmit s1 \<lparr>length_bits = 32, rxlength = 0, tx_buffer = cmd\<rparr>)
      in wait_ready s2)"

text \<open>
  \<open>load_program_data\<close> copies the four command bytes and \<open>len\<close> bytes of \<open>data\<close> into a
  fresh buffer and sends it. The source requires \<open>data\<close> to hold \<open>len\<close> bytes and
  \<open>malloc\<close> to succeed; both are taken for granted here.
\<close>

definition load_program_data :: "u16 \<Rightarrow> u8 list \<Rightarrow> size_t \<Rightarrow> spi_bus \<Rightarrow> spi_bus" where
  "load_program_data col data len s =
     (let cmd = [CMD_LOAD_PROGRAM, ucast (drop_bit 8 col), ucast col, 0];
          tx_buf = cmd @ take (unat len) data
      in snd (spi_device_transmit s
                \<lparr>length_bits = (4 + len) * 8, rxlength = 0, tx_buffer = tx_buf\<rparr>))"

definition program_execute :: "u32 \<Rightarrow> spi_bus \<Rightarrow> spi_bus option" where
  "program_execute page s =
     (let s1 = write_enable s;
          cmd = [CMD_PROGRAM_EXECUTE, ucast (drop_bit 16 page), ucast (drop_bit 8 page),
                 ucast page];
          s2 = snd (spi_device_transmit s1 \<lparr>length_bits = 32, rxlength = 0, tx_buffer = cmd\<rparr>)
      in wait_ready s2)"

definition page_data_read :: "u32 \<Rightarrow> spi_bus \<Rightarrow> spi_bus option" where
  "page_data_read page s =
     (let cmd = [CMD_PAGE_DATA_READ, ucast (drop_bit 16 page), ucast (drop_bit 8 page),
                 ucast page];
          s1 = snd (spi_device_transmit s \<lparr>length_bits = 32, rxlength = 0, tx_buffer = cmd\<rparr>)
      in wait_ready s1)"

text \<open>\<open>read_data\<close> returns the \<open>len\<close> bytes the transfer leaves in \<open>buffer\<close>.\<close>

definition read_data :: "u16 \<Rightarrow> size_t \<Rightarrow> spi_bus \<Rightarrow> u8 list \<times> spi_bus" where
  "read_data col len s =
     (let cmd = [CMD_READ_DATA, ucast (drop_bit 8 col), ucast col, 0x00]
      in case spi_device_transmit s
                \<lparr>length_bits = (4 + len) * 8, rxlength = len * 8, tx_buffer = cmd\<rparr> of
           (r, s1) \<Rightarrow> (map (rx_data r) [0..<unat len], s1))"

section \<open>The littlefs hooks\<close>

text \<open>
  The configuration \<open>initialize_lfs\<close> builds, reduced to its numbers. No hook reads its
  \<open>c\<close> argument. The hooks' parameter \<open>size\<close> is written \<open>sz\<close>.
\<close>

record lfs_config =
  read_size :: lfs_size_t
  prog_size :: lfs_size_t
  block_size :: lfs_size_t
  block_count :: lfs_size_t
  block_cycles :: int
  cache_size :: lfs_size_t
  lookahead_size :: lfs_size_t
  name_max :: lfs_size_t

definition cfg :: lfs_config where
  "cfg = \<lparr>read_size = 256, prog_size = 256, block_size = BLOCK_SIZE, block_count = 1024,
          block_cycles = 1, cache_size = 2048, lookahead_size = 128, name_max = 255\<rparr>"

text \<open>
  \<open>lfs_read\<close> and \<open>lfs_prog\<close> start with the same two locals, \<open>page\<close> and \<open>col\<close>;
  their initialisers are named here once. All operands are \<open>uint32_t\<close>, so the sum
  wraps at \<open>2 ^ 32\<close>; \<open>col\<close> is cut to 16 bits by its declaration.
\<close>

definition lfs_page :: "lfs_block_t \<Rightarrow> lfs_off_t \<Rightarrow> u32" where
  "lfs_page block offset = block * PAGES_PER_BLOCK + offset div PAGE_SIZE"

definition lfs_col :: "lfs_off_t \<Rightarrow> u16" where
  "lfs_col offset = ucast (offset mod PAGE_SIZE)"

definition lfs_read ::
  "lfs_config \<Rightarrow> lfs_block_t \<Rightarrow> lfs_off_t \<Rightarrow> lfs_size_t \<Rightarrow> spi_bus \<Rightarrow> (int \<times> u8 list \<times> spi_bus) option" where
  "lfs_read c block offset sz s =
     (let page = lfs_page block offset;
          col = lfs_col offset
      in case page_data_read page s of
           None \<Rightarrow> None
         | Some s1 \<Rightarrow> (case read_data col sz s1 of (buffer, s2) \<Rightarrow> Some (0, buffer, s2)))"

definition lfs_prog ::
  "lfs_config \<Rightarrow> lfs_block_t \<Rightarrow> lfs_off_t \<Rightarrow> u8 list \<Rightarrow> lfs_size_t \<Rightarrow> spi_bus \<Rightarrow> (int \<times> spi_bus) option" where
  "lfs_prog c block offset buffer sz s =
     (let page = lfs_page block offset;
          col = lfs_col offset;
          s1 = load_program_data col buffer sz s
      in case program_execute page s1 of
           None \<Rightarrow> None
         | Some s2 \<Rightarrow> Some (0, s2))"

definition lfs_erase :: "lfs_config \<Rightarrow> lfs_block_t \<Rightarrow> spi_bus \<Rightarrow> (int \<times> spi_bus) option" where
  "lfs_erase c block s =
     (case erase_block block s of
        None \<Rightarrow> None
      | Some s1 \<Rightarrow> Some (0, s1))"

definition lfs_sync :: "lfs_config \<Rightarrow> spi_bus \<Rightarrow> (int \<times> spi_bus) option" where
  "lfs_sync c s = Some (0, s)"

section \<open>Reading the model\<close>

text \<open>The status byte the \<open>i\<close>-th next transaction returns, and its busy bit (bit 0).\<close>

definition status_at :: "spi_bus \<Rightarrow> nat \<Rightarrow> u8" where
  "status_at s i = rx_data (chip s (xfers s + i)) 0"

definition busy :: "u8 \<Rightarrow> bool" where
  "busy status \<longleftrightarrow> status AND 0x01 \<noteq> 0"

text \<open>One round of the polling loop, and \<open>n\<close> of them.\<close>

definition poll :: "spi_bus \<Rightarrow> spi_bus" where
  "poll s = vTaskDelay 1 (snd (spi_device_transmit s wait_ready_txn))"

fun polls :: "nat \<Rightarrow> spi_bus \<Rightarrow> spi_bus" where
  "polls 0 s = s"
| "polls (Suc n) s = polls n (poll s)"

text \<open>Address bytes read back as one number, most significant byte first.\<close>

definition be_nat :: "u8 list \<Rightarrow> nat" where
  "be_nat bs = foldl (\<lambda>a b. a * 256 + unat b) 0 bs"

text \<open>The same chip and transport, with the \<open>esp_err_t\<close> of every transfer replaced.\<close>

definition set_rets :: "(nat \<Rightarrow> esp_err_t) \<Rightarrow> spi_bus \<Rightarrow> spi_bus" where
  "set_rets e s = s\<lparr>chip := \<lambda>k. (chip s k)\<lparr>ret := e k\<rparr>\<rparr>"

text \<open>
  Chips to run the driver against: one that answers the first \<open>n\<close> transactions with
  the busy bit set and every later one with status 0, one that is busy forever, and one
  whose transport fails transaction \<open>j\<close> with error code \<open>e\<close>. \<open>bus_on\<close> is a fresh
  bus in front of a chip.
\<close>

definition chip_busy_for :: "nat \<Rightarrow> nat \<Rightarrow> spi_reply" where
  "chip_busy_for n k = \<lparr>ret = 0, rx_data = (\<lambda>i. if k < n then 0x01 else 0x00)\<rparr>"

definition chip_stuck :: "nat \<Rightarrow> spi_reply" where
  "chip_stuck k = \<lparr>ret = 0, rx_data = (\<lambda>i. 0x01)\<rparr>"

definition chip_fault_at :: "nat \<Rightarrow> esp_err_t \<Rightarrow> nat \<Rightarrow> spi_reply" where
  "chip_fault_at j e k = \<lparr>ret = (if k = j then e else 0), rx_data = (\<lambda>i. 0x00)\<rparr>"

definition bus_on :: "(nat \<Rightarrow> spi_reply) \<Rightarrow> spi_bus" where
  "bus_on c = \<lparr>trace = [], xfers = 0, chip = c\<rparr>"

definition hello :: "u8 list" where
  "hello = [0x68, 0x65, 0x6C, 0x6C, 0x6F]"

text \<open>
  The manual test of \<open>app_main\<close>, between \<open>initialize_spi\<close> and \<open>initialize_lfs\<close>:
  \<open>write_enable(); load_program_data(0x1100, "hello", 5); program_execute(0x1100);\<close>
\<close>

definition app_main_manual_test :: "spi_bus \<Rightarrow> spi_bus option" where
  "app_main_manual_test s =
     (let s1 = write_enable s;
          s2 = load_program_data 0x1100 hello 5 s1
      in program_execute 0x1100 s2)"

section \<open>The polling loop\<close>

lemma wait_ready_unfold:
  "wait_ready s = (if busy (status_at s 0) then wait_ready (poll s) else Some (poll s))"
  by (subst wait_ready.simps)
     (simp add: spi_device_transmit_def poll_def status_at_def busy_def Let_def)

lemma xfers_poll: "xfers (poll s) = Suc (xfers s)"
  by (simp add: poll_def vTaskDelay_def spi_device_transmit_def)

lemma chip_poll: "chip (poll s) = chip s"
  by (simp add: poll_def vTaskDelay_def spi_device_transmit_def)

lemma trace_poll: "trace (poll s) = trace s @ [Transmit wait_ready_txn, VTaskDelay 1]"
  by (simp add: poll_def vTaskDelay_def spi_device_transmit_def)

lemma status_at_poll: "status_at (poll s) i = status_at s (Suc i)"
  by (simp add: status_at_def xfers_poll chip_poll)

lemma wait_ready_first_ready:
  "(\<forall>i<k. busy (status_at s i)) \<Longrightarrow> \<not> busy (status_at s k) \<Longrightarrow>
   wait_ready s = Some (polls (Suc k) s)"
proof (induction k arbitrary: s)
  case 0
  then show ?case by (subst wait_ready_unfold) simp
next
  case (Suc k)
  have b0: "busy (status_at s 0)" using Suc.prems(1) by blast
  have "wait_ready (poll s) = Some (polls (Suc k) (poll s))"
  proof (rule Suc.IH)
    show "\<forall>i<k. busy (status_at (poll s) i)"
      using Suc.prems(1) by (simp add: status_at_poll)
    show "\<not> busy (status_at (poll s) k)"
      using Suc.prems(2) by (simp add: status_at_poll)
  qed
  with b0 show ?case by (subst wait_ready_unfold) simp
qed

lemma wait_ready_returns_ready:
  "wait_ready s = Some s' \<Longrightarrow> \<exists>k. \<not> busy (status_at s k)"
proof (induction rule: wait_ready.raw_induct[rotated 1, consumes 1])
  case (1 wr s s')
  show ?case
  proof (cases "busy (status_at s 0)")
    case False
    then show ?thesis by blast
  next
    case True
    with 1(2) have "wr (poll s) = Some s'"
      by (simp add: spi_device_transmit_def poll_def status_at_def busy_def Let_def)
    from 1(1)[OF this] obtain k where "\<not> busy (status_at (poll s) k)" by blast
    then have "\<not> busy (status_at s (Suc k))" by (simp add: status_at_poll)
    then show ?thesis by blast
  qed
qed

lemma xfers_polls: "xfers (polls n s) = xfers s + n"
  by (induction n arbitrary: s) (simp_all add: xfers_poll)

lemma chip_polls: "chip (polls n s) = chip s"
  by (induction n arbitrary: s) (simp_all add: chip_poll)

lemma trace_polls:
  "trace (polls n s) = trace s @ concat (replicate n [Transmit wait_ready_txn, VTaskDelay 1])"
  by (induction n arbitrary: s) (simp_all add: trace_poll)

lemma wait_ready_stuck: "(\<forall>i. busy (status_at s i)) \<Longrightarrow> wait_ready s = None"
  using wait_ready_returns_ready[of s] by (cases "wait_ready s") auto

lemma first_ready_index:
  "\<not> busy (status_at s j) \<Longrightarrow>
   \<exists>k. (\<forall>i<k. busy (status_at s i)) \<and> \<not> busy (status_at s k)"
proof -
  assume r: "\<not> busy (status_at s j)"
  let ?k = "LEAST k. \<not> busy (status_at s k)"
  have "\<not> busy (status_at s ?k)" using r by (rule LeastI)
  moreover have "\<forall>i<?k. busy (status_at s i)"
    using not_less_Least by blast
  ultimately show ?thesis by blast
qed

lemma status_busy_for: "status_at (bus_on (chip_busy_for n)) i = (if i < n then 1 else 0)"
  by (simp add: status_at_def bus_on_def chip_busy_for_def)

lemma wait_ready_txn_bytes:
  "wait_ready_txn = \<lparr>length_bits = 16, rxlength = 0, tx_buffer = [0x0F, 0xC0]\<rparr>"
  by (simp add: wait_ready_txn_def CMD_READ_STATUS_def)

section \<open>Claims about the polling loop\<close>

text \<open>
  C7. \<open>wait_ready\<close> returns at the first poll whose status byte has bit 0 clear: if the
  next \<open>k\<close> status bytes have the busy bit set and the one after them has it clear, the
  call returns after exactly \<open>k + 1\<close> status-read transactions, each the two bytes
  \<open>0x0F 0xC0\<close> in a 16-bit transfer and each followed by its delay, and nothing else has
  happened on the bus. The function is \<open>void\<close>: returning is its success.
\<close>

theorem wait_ready_returns_at_first_clear:
  assumes "\<forall>i<k. busy (status_at s i)" and "\<not> busy (status_at s k)"
  shows "\<exists>s'. wait_ready s = Some s' \<and>
           trace s' = trace s @
             concat (replicate (k + 1)
               [Transmit \<lparr>length_bits = 16, rxlength = 0, tx_buffer = [0x0F, 0xC0]\<rparr>,
                VTaskDelay 1]) \<and>
           xfers s' = xfers s + (k + 1) \<and> chip s' = chip s"
  using wait_ready_first_ready[OF assms]
  by (simp add: trace_polls xfers_polls chip_polls wait_ready_txn_bytes del: polls.simps)

text \<open>Two busy status bytes, then a ready one: three polls.\<close>

theorem wait_ready_returns_at_first_clear_witness:
  "busy (status_at (bus_on (chip_busy_for 2)) 0) \<and>
   busy (status_at (bus_on (chip_busy_for 2)) 1) \<and>
   \<not> busy (status_at (bus_on (chip_busy_for 2)) 2) \<and>
   (\<exists>s'. wait_ready (bus_on (chip_busy_for 2)) = Some s' \<and>
      trace s' =
        [Transmit \<lparr>length_bits = 16, rxlength = 0, tx_buffer = [0x0F, 0xC0]\<rparr>, VTaskDelay 1,
         Transmit \<lparr>length_bits = 16, rxlength = 0, tx_buffer = [0x0F, 0xC0]\<rparr>, VTaskDelay 1,
         Transmit \<lparr>length_bits = 16, rxlength = 0, tx_buffer = [0x0F, 0xC0]\<rparr>, VTaskDelay 1] \<and>
      xfers s' = 3)"
proof -
  have a: "\<forall>i<2. busy (status_at (bus_on (chip_busy_for 2)) i)"
    by (simp add: status_busy_for busy_def)
  have b: "\<not> busy (status_at (bus_on (chip_busy_for 2)) 2)"
    by (simp add: status_busy_for busy_def)
  have c: "busy (status_at (bus_on (chip_busy_for 2)) 0)"
          "busy (status_at (bus_on (chip_busy_for 2)) 1)"
    by (simp_all add: status_busy_for busy_def)
  from wait_ready_returns_at_first_clear[OF a b] b c show ?thesis
    by (auto simp: bus_on_def numeral_3_eq_3)
qed



text \<open>
  C3, as the code has it. \<open>wait_ready\<close> takes no bound and has no error result: it fails
  to return exactly when every status byte it is given has the busy bit set. On such a
  chip it polls forever; it never gives up with a timeout.
\<close>

theorem wait_ready_never_times_out:
  "wait_ready s = None \<longleftrightarrow> (\<forall>i. busy (status_at s i))"
proof
  assume n: "wait_ready s = None"
  show "\<forall>i. busy (status_at s i)"
  proof (rule ccontr)
    assume "\<not> (\<forall>i. busy (status_at s i))"
    then obtain j where "\<not> busy (status_at s j)" by blast
    then obtain k where "\<forall>i<k. busy (status_at s i)" "\<not> busy (status_at s k)"
      using first_ready_index by blast
    then have "wait_ready s = Some (polls (Suc k) s)"
      by (rule wait_ready_first_ready)
    with n show False by simp
  qed
next
  assume "\<forall>i. busy (status_at s i)"
  then show "wait_ready s = None" by (rule wait_ready_stuck)
qed

theorem wait_ready_never_times_out_witness:
  "(\<forall>i. busy (status_at (bus_on (chip_busy_for 1)\<lparr>chip := chip_stuck\<rparr>) i)) \<and>
   wait_ready (bus_on (chip_busy_for 1)\<lparr>chip := chip_stuck\<rparr>) = None \<and>
   wait_ready (bus_on (chip_busy_for 1)) \<noteq> None"
  using wait_ready_never_times_out[of "bus_on (chip_busy_for 1)\<lparr>chip := chip_stuck\<rparr>"]
        wait_ready_never_times_out[of "bus_on (chip_busy_for 1)"]
  by (auto simp: status_at_def bus_on_def chip_stuck_def chip_busy_for_def busy_def)

text \<open>
  Against the bounded \<open>wait_ready\<close> of the specification: on a chip whose status byte is
  always \<open>0x01\<close> the call does not return at all, with a timeout or otherwise.
\<close>

theorem wait_ready_unbounded_counterexample:
  "wait_ready (bus_on chip_stuck) = None"
  by (rule wait_ready_stuck) (simp add: status_at_def bus_on_def chip_stuck_def busy_def)

section \<open>The commands as events\<close>

lemma wait_ready_ready_now: "\<not> busy (status_at s 0) \<Longrightarrow> wait_ready s = Some (poll s)"
  by (subst wait_ready_unfold) simp

lemma wait_ready_eventually:
  assumes "\<not> busy (status_at s j)"
  shows "\<exists>k. wait_ready s = Some (polls (Suc k) s)"
proof -
  from first_ready_index[OF assms]
  obtain k where "\<forall>i<k. busy (status_at s i)" "\<not> busy (status_at s k)" by blast
  then have "wait_ready s = Some (polls (Suc k) s)" by (rule wait_ready_first_ready)
  then show ?thesis by blast
qed

lemma status_at_later:
  "status_at (s\<lparr>trace := t, xfers := xfers s + n\<rparr>) i = status_at s (n + i)"
  by (simp add: status_at_def add.assoc)

lemma write_enable_eq:
  "write_enable s =
     s\<lparr>trace := trace s @ [Transmit \<lparr>length_bits = 8, rxlength = 0, tx_buffer = [0x06]\<rparr>],
       xfers := xfers s + 1\<rparr>"
  by (simp add: write_enable_def spi_device_transmit_def CMD_WRITE_ENABLE_def)

lemma erase_block_eq:
  "erase_block block s =
     wait_ready (s\<lparr>trace := trace s @
        [Transmit \<lparr>length_bits = 8, rxlength = 0, tx_buffer = [0x06]\<rparr>,
         Transmit \<lparr>length_bits = 32, rxlength = 0,
                   tx_buffer = [0xD8, ucast (drop_bit 16 (block * 64)),
                                ucast (drop_bit 8 (block * 64)), ucast (block * 64)]\<rparr>],
        xfers := xfers s + 2\<rparr>)"
  by (simp add: erase_block_def write_enable_eq spi_device_transmit_def Let_def
      CMD_BLOCK_ERASE_def PAGES_PER_BLOCK_def)

lemma program_execute_eq:
  "program_execute page s =
     wait_ready (s\<lparr>trace := trace s @
        [Transmit \<lparr>length_bits = 8, rxlength = 0, tx_buffer = [0x06]\<rparr>,
         Transmit \<lparr>length_bits = 32, rxlength = 0,
                   tx_buffer = [0x10, ucast (drop_bit 16 page), ucast (drop_bit 8 page),
                                ucast page]\<rparr>],
        xfers := xfers s + 2\<rparr>)"
  by (simp add: program_execute_def write_enable_eq spi_device_transmit_def Let_def
      CMD_PROGRAM_EXECUTE_def)

lemma page_data_read_eq:
  "page_data_read page s =
     wait_ready (s\<lparr>trace := trace s @
        [Transmit \<lparr>length_bits = 32, rxlength = 0,
                   tx_buffer = [0x13, ucast (drop_bit 16 page), ucast (drop_bit 8 page),
                                ucast page]\<rparr>],
        xfers := xfers s + 1\<rparr>)"
  by (simp add: page_data_read_def spi_device_transmit_def Let_def CMD_PAGE_DATA_READ_def)

lemma load_program_data_eq:
  "load_program_data col data len s =
     s\<lparr>trace := trace s @
        [Transmit \<lparr>length_bits = (4 + len) * 8, rxlength = 0,
                   tx_buffer = [0x02, ucast (drop_bit 8 col), ucast col, 0] @ take (unat len) data\<rparr>],
       xfers := xfers s + 1\<rparr>"
  by (simp add: load_program_data_def spi_device_transmit_def Let_def CMD_LOAD_PROGRAM_def)

lemma read_data_eq:
  "read_data col len s =
     (map (rx_data (chip s (xfers s))) [0..<unat len],
      s\<lparr>trace := trace s @
        [Transmit \<lparr>length_bits = (4 + len) * 8, rxlength = len * 8,
                   tx_buffer = [0x03, ucast (drop_bit 8 col), ucast col, 0]\<rparr>],
       xfers := xfers s + 1\<rparr>)"
  by (simp add: read_data_def spi_device_transmit_def Let_def CMD_READ_DATA_def)

lemma lfs_erase_eq: "lfs_erase c block s = map_option (Pair 0) (erase_block block s)"
  by (simp add: lfs_erase_def split: option.splits)

lemma lfs_prog_eq:
  "lfs_prog c block offset buffer sz s =
     map_option (Pair 0)
       (program_execute (lfs_page block offset) (load_program_data (lfs_col offset) buffer sz s))"
  by (simp add: lfs_prog_def Let_def split: option.splits)

lemma lfs_read_eq:
  "lfs_read c block offset sz s =
     map_option (\<lambda>s1. (0, read_data (lfs_col offset) sz s1))
       (page_data_read (lfs_page block offset) s)"
  by (simp add: lfs_read_def Let_def split: option.splits prod.splits)

section \<open>Address arithmetic\<close>

lemma unat_byte0: "unat (ucast (a :: 32 word) :: 8 word) = unat a mod 256"
  by (simp add: unsigned_ucast_eq take_bit_eq_mod)

lemma nat_be24:
  "(x div 65536 mod 256) * 65536 + (x div 256 mod 256) * 256 + x mod 256 = x mod 16777216"
  for x :: nat
proof -
  have a: "x mod (256 * 65536) = 256 * (x div 256 mod 65536) + x mod 256"
    by (rule mod_mult2_eq)
  have b: "(x div 256) mod (256 * 256) = 256 * (x div 256 div 256 mod 256) + x div 256 mod 256"
    by (rule mod_mult2_eq)
  have c: "x div 256 div 256 = x div 65536"
    by (simp add: div_mult2_eq[symmetric])
  from a b c show ?thesis by simp
qed

lemma be_nat_row:
  "be_nat [ucast (drop_bit 16 a), ucast (drop_bit 8 a), ucast a] = unat a mod 2 ^ 24"
  for a :: "32 word"
proof -
  have "be_nat [ucast (drop_bit 16 a), ucast (drop_bit 8 a), ucast a] =
        (unat (ucast (drop_bit 16 a) :: 8 word) * 256 + unat (ucast (drop_bit 8 a) :: 8 word)) * 256
          + unat (ucast a :: 8 word)"
    unfolding be_nat_def by simp
  also have "\<dots> = (unat a div 65536 mod 256) * 65536 + (unat a div 256 mod 256) * 256 + unat a mod 256"
    by (simp add: unat_byte0 drop_bit_eq_div unat_div)
  also have "\<dots> = unat a mod 2 ^ 24"
    using nat_be24[of "unat a"] by simp
  finally show ?thesis .
qed

lemma be_nat_block_row:
  "be_nat [ucast (drop_bit 16 (block * 64)), ucast (drop_bit 8 (block * 64)), ucast (block * 64)] =
     (unat block * unat PAGES_PER_BLOCK) mod 2 ^ 24"
  for block :: u32
proof -
  have row: "unat (block * 64) = (unat block * 64) mod 2 ^ 32"
    by (simp add: unat_word_ariths)
  have "be_nat [ucast (drop_bit 16 (block * 64)), ucast (drop_bit 8 (block * 64)), ucast (block * 64)] =
          unat (block * 64) mod 2 ^ 24"
    by (rule be_nat_row)
  also have "\<dots> = (unat block * 64) mod 2 ^ 32 mod 2 ^ 24" by (simp only: row)
  also have "\<dots> = (unat block * 64) mod 2 ^ 24"
    by (rule mod_mod_cancel) simp
  finally show ?thesis by (simp add: PAGES_PER_BLOCK_def)
qed

section \<open>Claims about addresses\<close>

text \<open>
  C10. The row address of program-execute and of page-data-read: after its opcode each
  command carries the same three address bytes, and read most significant byte first they
  are \<open>page mod 2 ^ 24\<close>. They give the page back exactly when it is below \<open>2 ^ 24\<close>; a
  larger page is cut to its low 24 bits without notice. Every page of the deployment's
  geometry (64 pages in each of 1024 blocks) is sent exact.
\<close>

theorem page_row_address_encoding:
  "\<exists>addr.
     program_execute page s =
       wait_ready (s\<lparr>trace := trace s @
          [Transmit \<lparr>length_bits = 8, rxlength = 0, tx_buffer = [CMD_WRITE_ENABLE]\<rparr>,
           Transmit \<lparr>length_bits = 32, rxlength = 0, tx_buffer = CMD_PROGRAM_EXECUTE # addr\<rparr>],
          xfers := xfers s + 2\<rparr>) \<and>
     page_data_read page s =
       wait_ready (s\<lparr>trace := trace s @
          [Transmit \<lparr>length_bits = 32, rxlength = 0, tx_buffer = CMD_PAGE_DATA_READ # addr\<rparr>],
          xfers := xfers s + 1\<rparr>) \<and>
     length addr = 3 \<and>
     be_nat addr = unat page mod 2 ^ 24 \<and>
     (be_nat addr = unat page \<longleftrightarrow> unat page < 2 ^ 24) \<and>
     (unat page < unat PAGES_PER_BLOCK * unat (block_count cfg) \<longrightarrow> be_nat addr = unat page)"
proof -
  let ?addr = "[ucast (drop_bit 16 page), ucast (drop_bit 8 page), ucast page] :: u8 list"
  have enc: "be_nat ?addr = unat page mod 2 ^ 24" by (rule be_nat_row)
  have a: "program_execute page s =
       wait_ready (s\<lparr>trace := trace s @
          [Transmit \<lparr>length_bits = 8, rxlength = 0, tx_buffer = [CMD_WRITE_ENABLE]\<rparr>,
           Transmit \<lparr>length_bits = 32, rxlength = 0, tx_buffer = CMD_PROGRAM_EXECUTE # ?addr\<rparr>],
          xfers := xfers s + 2\<rparr>)"
    by (simp add: program_execute_eq CMD_WRITE_ENABLE_def CMD_PROGRAM_EXECUTE_def)
  have b: "page_data_read page s =
       wait_ready (s\<lparr>trace := trace s @
          [Transmit \<lparr>length_bits = 32, rxlength = 0, tx_buffer = CMD_PAGE_DATA_READ # ?addr\<rparr>],
          xfers := xfers s + 1\<rparr>)"
    by (simp add: page_data_read_eq CMD_PAGE_DATA_READ_def)
  have c: "be_nat ?addr = unat page \<longleftrightarrow> unat page < 2 ^ 24"
    unfolding enc by (metis mod_less mod_less_divisor zero_less_numeral zero_less_power)
  have d: "unat page < unat PAGES_PER_BLOCK * unat (block_count cfg) \<longrightarrow> be_nat ?addr = unat page"
    unfolding enc by (simp add: PAGES_PER_BLOCK_def cfg_def)
  have e: "length ?addr = 3" by simp
  from a b c d e enc show ?thesis by blast
qed

theorem page_row_address_encoding_witness:
  "unat (0x1100 :: u32) < unat PAGES_PER_BLOCK * unat (block_count cfg) \<and>
   (\<exists>addr.
     program_execute 0x1100 (bus_on (chip_busy_for 0)) =
       wait_ready \<lparr>trace =
          [Transmit \<lparr>length_bits = 8, rxlength = 0, tx_buffer = [0x06]\<rparr>,
           Transmit \<lparr>length_bits = 32, rxlength = 0, tx_buffer = 0x10 # addr\<rparr>],
          xfers = 2, chip = chip_busy_for 0\<rparr> \<and>
     length addr = 3 \<and> be_nat addr = 4352)"
proof -
  have h: "unat (0x1100 :: u32) < unat PAGES_PER_BLOCK * unat (block_count cfg)"
    by (simp add: PAGES_PER_BLOCK_def cfg_def)
  from page_row_address_encoding[of "0x1100" "bus_on (chip_busy_for 0)"]
  obtain addr where a:
    "program_execute 0x1100 (bus_on (chip_busy_for 0)) =
       wait_ready (bus_on (chip_busy_for 0)\<lparr>trace := trace (bus_on (chip_busy_for 0)) @
          [Transmit \<lparr>length_bits = 8, rxlength = 0, tx_buffer = [CMD_WRITE_ENABLE]\<rparr>,
           Transmit \<lparr>length_bits = 32, rxlength = 0, tx_buffer = CMD_PROGRAM_EXECUTE # addr\<rparr>],
          xfers := xfers (bus_on (chip_busy_for 0)) + 2\<rparr>)"
    "length addr = 3" "be_nat addr = unat (0x1100 :: u32) mod 2 ^ 24"
    by blast
  from a(1) have "program_execute 0x1100 (bus_on (chip_busy_for 0)) =
       wait_ready \<lparr>trace =
          [Transmit \<lparr>length_bits = 8, rxlength = 0, tx_buffer = [0x06]\<rparr>,
           Transmit \<lparr>length_bits = 32, rxlength = 0, tx_buffer = 0x10 # addr\<rparr>],
          xfers = 2, chip = chip_busy_for 0\<rparr>"
    by (simp add: bus_on_def CMD_WRITE_ENABLE_def CMD_PROGRAM_EXECUTE_def
        del: add_2_eq_Suc add_2_eq_Suc')
  moreover from a(3) have "be_nat addr = 4352" by simp
  ultimately show ?thesis using h a(2) by blast
qed

text \<open>
  C6, as the code has it. \<open>erase_block\<close> sends write-enable (the single byte \<open>0x06\<close>),
  then the block-erase command, opcode \<open>0xD8\<close> and exactly three address bytes, and then
  runs \<open>wait_ready\<close>. Read most significant byte first the address bytes are
  \<open>block * PAGES_PER_BLOCK\<close> modulo \<open>2 ^ 24\<close>: the row address itself for every block
  below \<open>2 ^ 18\<close>, which covers the 1024 blocks of the deployment.
\<close>

theorem erase_block_commands:
  "\<exists>addr.
     erase_block block s =
       wait_ready (s\<lparr>trace := trace s @
          [Transmit \<lparr>length_bits = 8, rxlength = 0, tx_buffer = [0x06]\<rparr>,
           Transmit \<lparr>length_bits = 32, rxlength = 0, tx_buffer = 0xD8 # addr\<rparr>],
          xfers := xfers s + 2\<rparr>) \<and>
     length addr = 3 \<and>
     be_nat addr = (unat block * unat PAGES_PER_BLOCK) mod 2 ^ 24 \<and>
     (unat block < 2 ^ 18 \<longrightarrow> be_nat addr = unat block * unat PAGES_PER_BLOCK)"
proof -
  let ?row = "block * 64"
  let ?addr = "[ucast (drop_bit 16 ?row), ucast (drop_bit 8 ?row), ucast ?row] :: u8 list"
  have enc: "be_nat ?addr = (unat block * unat PAGES_PER_BLOCK) mod 2 ^ 24"
    by (rule be_nat_block_row)
  have small: "unat block < 2 ^ 18 \<longrightarrow> be_nat ?addr = unat block * unat PAGES_PER_BLOCK"
    unfolding enc by (simp add: PAGES_PER_BLOCK_def)
  have e: "erase_block block s =
       wait_ready (s\<lparr>trace := trace s @
          [Transmit \<lparr>length_bits = 8, rxlength = 0, tx_buffer = [0x06]\<rparr>,
           Transmit \<lparr>length_bits = 32, rxlength = 0, tx_buffer = 0xD8 # ?addr\<rparr>],
          xfers := xfers s + 2\<rparr>)"
    by (simp add: erase_block_eq)
  have l: "length ?addr = 3" by simp
  from e l enc small show ?thesis by blast
qed

theorem erase_block_commands_witness:
  "unat (1023 :: u32) < 2 ^ 18 \<and>
   (\<exists>addr.
     erase_block 1023 (bus_on (chip_busy_for 0)) =
       wait_ready \<lparr>trace =
          [Transmit \<lparr>length_bits = 8, rxlength = 0, tx_buffer = [0x06]\<rparr>,
           Transmit \<lparr>length_bits = 32, rxlength = 0, tx_buffer = 0xD8 # addr\<rparr>],
          xfers = 2, chip = chip_busy_for 0\<rparr> \<and>
     length addr = 3 \<and> be_nat addr = 65472)"
proof -
  have h: "unat (1023 :: u32) < 2 ^ 18" by simp
  from erase_block_commands[of 1023 "bus_on (chip_busy_for 0)"]
  obtain addr where a:
    "erase_block 1023 (bus_on (chip_busy_for 0)) =
       wait_ready (bus_on (chip_busy_for 0)\<lparr>trace := trace (bus_on (chip_busy_for 0)) @
          [Transmit \<lparr>length_bits = 8, rxlength = 0, tx_buffer = [0x06]\<rparr>,
           Transmit \<lparr>length_bits = 32, rxlength = 0, tx_buffer = 0xD8 # addr\<rparr>],
          xfers := xfers (bus_on (chip_busy_for 0)) + 2\<rparr>)"
    "length addr = 3"
    "be_nat addr = (unat (1023 :: u32) * unat PAGES_PER_BLOCK) mod 2 ^ 24"
    by blast
  from a(1) have "erase_block 1023 (bus_on (chip_busy_for 0)) =
       wait_ready \<lparr>trace =
          [Transmit \<lparr>length_bits = 8, rxlength = 0, tx_buffer = [0x06]\<rparr>,
           Transmit \<lparr>length_bits = 32, rxlength = 0, tx_buffer = 0xD8 # addr\<rparr>],
          xfers = 2, chip = chip_busy_for 0\<rparr>"
    by (simp add: bus_on_def del: add_2_eq_Suc add_2_eq_Suc')
  moreover from a(3) have "be_nat addr = 65472" by (simp add: PAGES_PER_BLOCK_def)
  ultimately show ?thesis using h a(2) by blast
qed

lemma poll_eq:
  "poll s = s\<lparr>trace := trace s @ [Transmit wait_ready_txn, VTaskDelay 1], xfers := xfers s + 1\<rparr>"
  by (simp add: poll_def vTaskDelay_def spi_device_transmit_def)

lemma wait_ready_idle:
  "\<not> busy (rx_data (c n) 0) \<Longrightarrow>
   wait_ready \<lparr>trace = t, xfers = n, chip = c\<rparr> =
     Some \<lparr>trace = t @ [Transmit wait_ready_txn, VTaskDelay 1], xfers = n + 1, chip = c\<rparr>"
  by (subst wait_ready_ready_now) (simp_all add: status_at_def poll_eq)

text \<open>
  Block \<open>2 ^ 18\<close> is erased with the address bytes of block 0: they do not encode its
  row address \<open>2 ^ 24\<close>.
\<close>

theorem erase_block_counterexample:
  "erase_block 0x40000 (bus_on (chip_busy_for 0)) =
     Some \<lparr>trace =
        [Transmit \<lparr>length_bits = 8, rxlength = 0, tx_buffer = [0x06]\<rparr>,
         Transmit \<lparr>length_bits = 32, rxlength = 0, tx_buffer = [0xD8, 0x00, 0x00, 0x00]\<rparr>,
         Transmit wait_ready_txn, VTaskDelay 1],
        xfers = 3, chip = chip_busy_for 0\<rparr> \<and>
   be_nat [0x00, 0x00, 0x00] \<noteq> unat (0x40000 :: u32) * unat PAGES_PER_BLOCK"
proof -
  have r: "\<not> busy (rx_data (chip_busy_for 0 2) 0)"
    by (simp add: chip_busy_for_def busy_def)
  show ?thesis
    using wait_ready_idle[of "chip_busy_for 0" 2, OF r]
    by (simp add: erase_block_eq bus_on_def be_nat_def PAGES_PER_BLOCK_def
        del: add_2_eq_Suc add_2_eq_Suc')
qed

lemma unat_lfs_page:
  "unat (lfs_page block offset) = (unat block * 64 + unat offset div 2048) mod 2 ^ 32"
  by (simp add: lfs_page_def PAGES_PER_BLOCK_def PAGE_SIZE_def unat_word_ariths unat_div mod_simps)

lemma unat_lfs_col: "unat (lfs_col offset) = unat offset mod 2048"
  by (simp add: lfs_col_def PAGE_SIZE_def unsigned_ucast_eq take_bit_eq_mod unat_mod)

lemma lfs_address_word:
  "lfs_page block offset * PAGE_SIZE + ucast (lfs_col offset) = block * BLOCK_SIZE + offset"
proof -
  have c: "ucast (ucast (offset mod 2048 :: u32) :: u16) = (offset mod 2048 :: u32)"
  proof (rule word_unat_eq_iff[THEN iffD2])
    show "unat (ucast (ucast (offset mod 2048 :: u32) :: u16) :: u32) = unat (offset mod 2048)"
      by (simp add: unsigned_ucast_eq take_bit_eq_mod unat_mod)
  qed
  have d: "offset div 2048 * 2048 + offset mod 2048 = offset"
    by (rule div_mult_mod_eq)
  have "(block * 64 + offset div 2048) * 2048 + offset mod 2048 =
          block * (2048 * 64) + (offset div 2048 * 2048 + offset mod 2048)"
    by (simp add: algebra_simps)
  with c d show ?thesis
    by (simp add: lfs_page_def lfs_col_def PAGE_SIZE_def PAGES_PER_BLOCK_def BLOCK_SIZE_def)
qed

text \<open>
  C2, as the code has it. In the driver's 32-bit arithmetic
  \<open>page * PAGE_SIZE + col = block * BLOCK_SIZE + offset\<close> for every block and offset, and
  \<open>col < PAGE_SIZE\<close>. Over the integers, for an offset below \<open>BLOCK_SIZE\<close>, the equation
  holds exactly for the blocks below \<open>2 ^ 26\<close> (all 1024 of the deployment among them):
  from block \<open>2 ^ 26\<close> on, \<open>block * PAGES_PER_BLOCK\<close> wraps.
\<close>

theorem lfs_address_decomposition:
  "lfs_page block offset * PAGE_SIZE + ucast (lfs_col offset) = block * BLOCK_SIZE + offset \<and>
   unat (lfs_col offset) < unat PAGE_SIZE \<and>
   (unat offset < unat BLOCK_SIZE \<longrightarrow>
      (unat (lfs_page block offset) * unat PAGE_SIZE + unat (lfs_col offset) =
         unat block * unat BLOCK_SIZE + unat offset
       \<longleftrightarrow> unat block < 2 ^ 26))"
proof (intro conjI impI)
  show "lfs_page block offset * PAGE_SIZE + ucast (lfs_col offset) = block * BLOCK_SIZE + offset"
    by (rule lfs_address_word)
  show "unat (lfs_col offset) < unat PAGE_SIZE"
    by (simp add: unat_lfs_col PAGE_SIZE_def)
  assume "unat offset < unat BLOCK_SIZE"
  then have o: "unat offset < 131072"
    by (simp add: BLOCK_SIZE_def PAGE_SIZE_def PAGES_PER_BLOCK_def)
  define B where "B = unat block"
  define q where "q = unat offset div 2048"
  define r where "r = unat offset mod 2048"
  have q: "q < 64" using o by (simp add: q_def)
  have r: "r < 2048" by (simp add: r_def)
  have off: "unat offset = q * 2048 + r" by (simp add: q_def r_def)
  have page: "unat (lfs_page block offset) = (B * 64 + q) mod 4294967296"
    by (simp add: unat_lfs_page B_def q_def)
  have "((B * 64 + q) mod 4294967296) * 2048 + r = B * 131072 + (q * 2048 + r) \<longleftrightarrow> B < 67108864"
  proof (cases "B < 67108864")
    case True
    then have "B * 64 + q < 4294967296" using q by linarith
    then have "(B * 64 + q) mod 4294967296 = B * 64 + q" by simp
    with True show ?thesis by simp
  next
    case False
    have "(B * 64 + q) mod 4294967296 < 4294967296" by simp
    then have "((B * 64 + q) mod 4294967296) * 2048 + r < 8796093022208" using r by linarith
    moreover have "8796093022208 \<le> B * 131072" using False by linarith
    ultimately show ?thesis using False by linarith
  qed
  then have key: "((B * 64 + q) mod 4294967296) * 2048 + r = B * 131072 + (q * 2048 + r)
                    \<longleftrightarrow> unat block < 2 ^ 26"
    by (simp add: B_def)
  have cs: "unat PAGE_SIZE = 2048" "unat BLOCK_SIZE = 131072"
    by (simp_all add: PAGE_SIZE_def BLOCK_SIZE_def PAGES_PER_BLOCK_def)
  have col: "unat (lfs_col offset) = r"
    by (simp add: unat_lfs_col r_def)
  have lhs: "unat (lfs_page block offset) * unat PAGE_SIZE + unat (lfs_col offset) =
               ((B * 64 + q) mod 4294967296) * 2048 + r"
    by (simp only: page col cs)
  have rhs: "unat block * unat BLOCK_SIZE + unat offset = B * 131072 + (q * 2048 + r)"
    by (simp only: B_def cs off)
  show "unat (lfs_page block offset) * unat PAGE_SIZE + unat (lfs_col offset) =
         unat block * unat BLOCK_SIZE + unat offset
       \<longleftrightarrow> unat block < 2 ^ 26"
    by (simp only: lhs rhs key)
qed

theorem lfs_address_decomposition_witness:
  "unat (131071 :: u32) < unat BLOCK_SIZE \<and> unat (1023 :: u32) < 2 ^ 26 \<and>
   lfs_page 1023 131071 = 65535 \<and> lfs_col 131071 = 2047 \<and>
   unat (lfs_page 1023 131071) * unat PAGE_SIZE + unat (lfs_col 131071) =
     unat (1023 :: u32) * unat BLOCK_SIZE + unat (131071 :: u32)"
proof -
  have h: "unat (131071 :: u32) < unat BLOCK_SIZE"
    by (simp add: BLOCK_SIZE_def PAGE_SIZE_def PAGES_PER_BLOCK_def)
  have b: "unat (1023 :: u32) < 2 ^ 26" by simp
  have p: "lfs_page 1023 131071 = 65535"
    by (simp add: lfs_page_def PAGES_PER_BLOCK_def PAGE_SIZE_def)
  have c: "lfs_col 131071 = 2047"
    by (simp add: lfs_col_def PAGE_SIZE_def)
  from lfs_address_decomposition[of 1023 131071] h b
  have "unat (lfs_page 1023 131071) * unat PAGE_SIZE + unat (lfs_col 131071) =
     unat (1023 :: u32) * unat BLOCK_SIZE + unat (131071 :: u32)"
    by blast
  with h b p c show ?thesis by blast
qed

text \<open>
  Block \<open>2 ^ 26\<close> at offset 0 is given page 0 and column 0, as block 0 is: the integer
  equation fails and the block cannot be told from the pair.
\<close>

theorem lfs_address_decomposition_counterexample:
  "unat (lfs_page 0x4000000 0) * unat PAGE_SIZE + unat (lfs_col 0) \<noteq>
     unat (0x4000000 :: u32) * unat BLOCK_SIZE + unat (0 :: u32) \<and>
   lfs_page 0x4000000 0 = lfs_page 0 0 \<and> lfs_col 0 = 0 \<and> lfs_page 0 0 = 0"
  by (simp add: lfs_page_def lfs_col_def PAGE_SIZE_def PAGES_PER_BLOCK_def BLOCK_SIZE_def)

section \<open>Claims about the littlefs hooks\<close>

text \<open>
  C5. The order of commands in \<open>lfs_prog\<close>, run for block 0, offset 0 and the five bytes
  of "hello" on a chip that is ready: the load-program command with the payload goes out
  first, write-enable only after it (from inside \<open>program_execute\<close>), then
  program-execute and one status poll. The manual test of \<open>app_main\<close> does send
  write-enable before the load.
\<close>

theorem lfs_prog_loads_before_write_enable:
  "lfs_prog cfg 0 0 hello 5 (bus_on (chip_busy_for 0)) =
     Some (0, \<lparr>trace =
        [Transmit \<lparr>length_bits = 72, rxlength = 0,
                   tx_buffer = [0x02, 0x00, 0x00, 0x00, 0x68, 0x65, 0x6C, 0x6C, 0x6F]\<rparr>,
         Transmit \<lparr>length_bits = 8, rxlength = 0, tx_buffer = [0x06]\<rparr>,
         Transmit \<lparr>length_bits = 32, rxlength = 0, tx_buffer = [0x10, 0x00, 0x00, 0x00]\<rparr>,
         Transmit wait_ready_txn, VTaskDelay 1],
        xfers = 4, chip = chip_busy_for 0\<rparr>) \<and>
   app_main_manual_test (bus_on (chip_busy_for 0)) =
     Some \<lparr>trace =
        [Transmit \<lparr>length_bits = 8, rxlength = 0, tx_buffer = [0x06]\<rparr>,
         Transmit \<lparr>length_bits = 72, rxlength = 0,
                   tx_buffer = [0x02, 0x11, 0x00, 0x00, 0x68, 0x65, 0x6C, 0x6C, 0x6F]\<rparr>,
         Transmit \<lparr>length_bits = 8, rxlength = 0, tx_buffer = [0x06]\<rparr>,
         Transmit \<lparr>length_bits = 32, rxlength = 0, tx_buffer = [0x10, 0x00, 0x11, 0x00]\<rparr>,
         Transmit wait_ready_txn, VTaskDelay 1],
        xfers = 5, chip = chip_busy_for 0\<rparr>"
proof -
  have r: "\<not> busy (rx_data (chip_busy_for 0 n) 0)" for n
    by (simp add: chip_busy_for_def busy_def)
  have p: "lfs_page 0 0 = 0" "lfs_col 0 = 0"
    by (simp_all add: lfs_page_def lfs_col_def PAGE_SIZE_def PAGES_PER_BLOCK_def)
  show ?thesis
    using wait_ready_idle[of "chip_busy_for 0" 3, OF r] wait_ready_idle[of "chip_busy_for 0" 4, OF r]
    by (simp add: lfs_prog_eq app_main_manual_test_def p program_execute_eq load_program_data_eq
        write_enable_eq bus_on_def hello_def del: add_2_eq_Suc add_2_eq_Suc')
qed

lemma status_at_set_rets: "status_at (set_rets e s) i = status_at s i"
  by (simp add: status_at_def set_rets_def)

lemma poll_set_rets: "poll (set_rets e s) = set_rets e (poll s)"
  by (simp add: poll_eq set_rets_def)

lemma polls_set_rets: "polls n (set_rets e s) = set_rets e (polls n s)"
  by (induction n arbitrary: s) (simp_all add: poll_set_rets)

lemma wait_ready_set_rets: "wait_ready (set_rets e s) = map_option (set_rets e) (wait_ready s)"
proof (cases "\<exists>j. \<not> busy (status_at s j)")
  case True
  then obtain j where "\<not> busy (status_at s j)" by blast
  from first_ready_index[OF this]
  obtain k where k: "\<forall>i<k. busy (status_at s i)" "\<not> busy (status_at s k)" by blast
  then have a: "wait_ready s = Some (polls (Suc k) s)" by (rule wait_ready_first_ready)
  from k have "\<forall>i<k. busy (status_at (set_rets e s) i)" "\<not> busy (status_at (set_rets e s) k)"
    by (simp_all add: status_at_set_rets)
  then have "wait_ready (set_rets e s) = Some (polls (Suc k) (set_rets e s))"
    by (rule wait_ready_first_ready)
  with a show ?thesis by (simp add: polls_set_rets del: polls.simps)
next
  case False
  then have b: "\<forall>i. busy (status_at s i)" by blast
  then have "\<forall>i. busy (status_at (set_rets e s) i)" by (simp add: status_at_set_rets)
  then have "wait_ready (set_rets e s) = None" by (rule wait_ready_stuck)
  moreover from b have "wait_ready s = None" by (rule wait_ready_stuck)
  ultimately show ?thesis by simp
qed

lemma set_rets_events:
  "set_rets e s\<lparr>trace := t, xfers := n\<rparr> = set_rets e (s\<lparr>trace := t, xfers := n\<rparr>)"
  by (simp add: set_rets_def)

lemma set_rets_fields: "trace (set_rets e s) = trace s" "xfers (set_rets e s) = xfers s"
  by (simp_all add: set_rets_def)

lemma erase_block_set_rets:
  "erase_block block (set_rets e s) = map_option (set_rets e) (erase_block block s)"
  by (simp add: erase_block_eq set_rets_fields set_rets_events wait_ready_set_rets)

lemma program_execute_set_rets:
  "program_execute page (set_rets e s) = map_option (set_rets e) (program_execute page s)"
  by (simp add: program_execute_eq set_rets_fields set_rets_events wait_ready_set_rets)

lemma page_data_read_set_rets:
  "page_data_read page (set_rets e s) = map_option (set_rets e) (page_data_read page s)"
  by (simp add: page_data_read_eq set_rets_fields set_rets_events wait_ready_set_rets)

lemma load_program_data_set_rets:
  "load_program_data col data len (set_rets e s) = set_rets e (load_program_data col data len s)"
  by (simp add: load_program_data_eq set_rets_fields set_rets_events)

lemma read_data_set_rets:
  "read_data col len (set_rets e s) =
     (fst (read_data col len s), set_rets e (snd (read_data col len s)))"
  by (simp add: read_data_eq set_rets_def)

lemma wait_ready_hangs_iff: "wait_ready s = None \<longleftrightarrow> (\<forall>i. busy (status_at s i))"
proof
  assume n: "wait_ready s = None"
  show "\<forall>i. busy (status_at s i)"
  proof (rule ccontr)
    assume "\<not> (\<forall>i. busy (status_at s i))"
    then obtain j where "\<not> busy (status_at s j)" by blast
    from wait_ready_eventually[OF this] n show False by auto
  qed
next
  assume "\<forall>i. busy (status_at s i)"
  then show "wait_ready s = None" by (rule wait_ready_stuck)
qed

lemma wait_ready_later_hangs_iff:
  "wait_ready (s\<lparr>trace := t, xfers := xfers s + n\<rparr>) = None \<longleftrightarrow>
     (\<forall>i. busy (status_at s (n + i)))"
  by (simp add: wait_ready_hangs_iff status_at_later)

lemma status_at_load_program_data:
  "status_at (load_program_data col data len s) i = status_at s (Suc i)"
  by (simp add: load_program_data_eq status_at_def)

lemma erase_block_hangs_iff:
  "erase_block block s = None \<longleftrightarrow> (\<forall>i. busy (status_at s (2 + i)))"
  unfolding erase_block_eq by (rule wait_ready_later_hangs_iff)

lemma program_execute_hangs_iff:
  "program_execute page s = None \<longleftrightarrow> (\<forall>i. busy (status_at s (2 + i)))"
  unfolding program_execute_eq by (rule wait_ready_later_hangs_iff)

lemma page_data_read_hangs_iff:
  "page_data_read page s = None \<longleftrightarrow> (\<forall>i. busy (status_at s (1 + i)))"
  unfolding page_data_read_eq by (rule wait_ready_later_hangs_iff)

lemma lfs_erase_hangs_iff:
  "lfs_erase c block s = None \<longleftrightarrow> (\<forall>i. busy (status_at s (2 + i)))"
  by (simp add: lfs_erase_eq erase_block_hangs_iff)

lemma lfs_prog_hangs_iff:
  "lfs_prog c block offset buffer sz s = None \<longleftrightarrow> (\<forall>i. busy (status_at s (3 + i)))"
proof -
  have "Suc (2 + i) = 3 + i" for i :: nat by simp
  then show ?thesis
    by (simp add: lfs_prog_eq program_execute_hangs_iff status_at_load_program_data
        del: add_2_eq_Suc add_2_eq_Suc' add_Suc_right)
qed

lemma lfs_read_hangs_iff:
  "lfs_read c block offset sz s = None \<longleftrightarrow> (\<forall>i. busy (status_at s (1 + i)))"
  by (simp add: lfs_read_eq page_data_read_hangs_iff)

text \<open>
  C1, as the code has it. The hooks drop the \<open>esp_err_t\<close> of every transfer: replace the
  error codes the transport returns by any others and \<open>lfs_erase\<close>, \<open>lfs_prog\<close> and
  \<open>lfs_read\<close> return the same value, fill the same buffer and put the same events on the
  bus. Whenever one of them returns, it returns 0. And a hook fails to return exactly when
  the chip shows the busy bit at every poll after the hook's commands: it hangs in
  \<open>wait_ready\<close>, it does not time out.
\<close>

theorem lfs_hooks_drop_transport_errors:
  "lfs_erase c block (set_rets e s) =
     map_option (\<lambda>(r, s'). (r, set_rets e s')) (lfs_erase c block s) \<and>
   lfs_prog c block offset buffer sz (set_rets e s) =
     map_option (\<lambda>(r, s'). (r, set_rets e s')) (lfs_prog c block offset buffer sz s) \<and>
   lfs_read c block offset sz (set_rets e s) =
     map_option (\<lambda>(r, buf, s'). (r, buf, set_rets e s')) (lfs_read c block offset sz s) \<and>
   (\<forall>r. lfs_erase c block s = Some r \<longrightarrow> fst r = 0) \<and>
   (\<forall>r. lfs_prog c block offset buffer sz s = Some r \<longrightarrow> fst r = 0) \<and>
   (\<forall>r. lfs_read c block offset sz s = Some r \<longrightarrow> fst r = 0) \<and>
   (lfs_erase c block s = None \<longleftrightarrow> (\<forall>i. busy (status_at s (2 + i)))) \<and>
   (lfs_prog c block offset buffer sz s = None \<longleftrightarrow> (\<forall>i. busy (status_at s (3 + i)))) \<and>
   (lfs_read c block offset sz s = None \<longleftrightarrow> (\<forall>i. busy (status_at s (1 + i))))"
proof (intro conjI)
  show "lfs_erase c block (set_rets e s) =
     map_option (\<lambda>(r, s'). (r, set_rets e s')) (lfs_erase c block s)"
    by (simp add: lfs_erase_eq erase_block_set_rets option.map_comp comp_def)
  show "lfs_prog c block offset buffer sz (set_rets e s) =
     map_option (\<lambda>(r, s'). (r, set_rets e s')) (lfs_prog c block offset buffer sz s)"
    by (simp add: lfs_prog_eq load_program_data_set_rets program_execute_set_rets
        option.map_comp comp_def)
  show "lfs_read c block offset sz (set_rets e s) =
     map_option (\<lambda>(r, buf, s'). (r, buf, set_rets e s')) (lfs_read c block offset sz s)"
    by (simp add: lfs_read_eq page_data_read_set_rets read_data_set_rets
        option.map_comp comp_def split_beta)
  show "\<forall>r. lfs_erase c block s = Some r \<longrightarrow> fst r = 0"
    by (auto simp: lfs_erase_eq)
  show "\<forall>r. lfs_prog c block offset buffer sz s = Some r \<longrightarrow> fst r = 0"
    by (auto simp: lfs_prog_eq)
  show "\<forall>r. lfs_read c block offset sz s = Some r \<longrightarrow> fst r = 0"
    by (auto simp: lfs_read_eq)
  show "lfs_erase c block s = None \<longleftrightarrow> (\<forall>i. busy (status_at s (2 + i)))"
    by (rule lfs_erase_hangs_iff)
  show "lfs_prog c block offset buffer sz s = None \<longleftrightarrow> (\<forall>i. busy (status_at s (3 + i)))"
    by (rule lfs_prog_hangs_iff)
  show "lfs_read c block offset sz s = None \<longleftrightarrow> (\<forall>i. busy (status_at s (1 + i)))"
    by (rule lfs_read_hangs_iff)
qed

lemma lfs_erase_idle:
  "\<not> busy (rx_data (ch 2) 0) \<Longrightarrow>
   lfs_erase c block (bus_on ch) =
     Some (0, \<lparr>trace =
        [Transmit \<lparr>length_bits = 8, rxlength = 0, tx_buffer = [0x06]\<rparr>,
         Transmit \<lparr>length_bits = 32, rxlength = 0,
                   tx_buffer = [0xD8, ucast (drop_bit 16 (block * 64)),
                                ucast (drop_bit 8 (block * 64)), ucast (block * 64)]\<rparr>,
         Transmit wait_ready_txn, VTaskDelay 1],
        xfers = 3, chip = ch\<rparr>)"
  using wait_ready_idle[of ch 2]
  by (simp add: lfs_erase_eq erase_block_eq bus_on_def del: add_2_eq_Suc add_2_eq_Suc')

theorem lfs_hooks_drop_transport_errors_witness:
  "map_option fst (lfs_erase cfg 0 (set_rets (\<lambda>k. - 1) (bus_on (chip_busy_for 0)))) = Some 0 \<and>
   ret (chip (set_rets (\<lambda>k. - 1) (bus_on (chip_busy_for 0))) 0) = - 1 \<and>
   (\<forall>i. busy (status_at (bus_on chip_stuck) (2 + i))) \<and>
   lfs_erase cfg 0 (bus_on chip_stuck) = None"
proof -
  have r: "\<not> busy (rx_data (chip_busy_for 0 2) 0)"
    by (simp add: chip_busy_for_def busy_def)
  from lfs_hooks_drop_transport_errors[of cfg 0 "\<lambda>k. - 1" "bus_on (chip_busy_for 0)"]
  have "lfs_erase cfg 0 (set_rets (\<lambda>k. - 1) (bus_on (chip_busy_for 0))) =
     map_option (\<lambda>(r, s'). (r, set_rets (\<lambda>k. - 1) s')) (lfs_erase cfg 0 (bus_on (chip_busy_for 0)))"
    by blast
  then have a: "map_option fst (lfs_erase cfg 0 (set_rets (\<lambda>k. - 1) (bus_on (chip_busy_for 0)))) = Some 0"
    by (simp add: lfs_erase_idle[of "chip_busy_for 0", OF r])
  have b: "ret (chip (set_rets (\<lambda>k. - 1) (bus_on (chip_busy_for 0))) 0) = - 1"
    by (simp add: set_rets_def bus_on_def)
  have st: "\<forall>i. busy (status_at (bus_on chip_stuck) (2 + i))"
    by (simp add: status_at_def bus_on_def chip_stuck_def busy_def)
  with lfs_hooks_drop_transport_errors[of cfg 0 "\<lambda>k. 0" "bus_on chip_stuck"]
  have c: "lfs_erase cfg 0 (bus_on chip_stuck) = None" by blast
  from a b st c show ?thesis by blast
qed

text \<open>
  The transfer of the block-erase command fails with \<open>ESP_ERR_TIMEOUT\<close> (\<open>0x107\<close>), and
  \<open>lfs_erase\<close> returns 0.
\<close>

theorem lfs_erase_reports_success_counterexample:
  "ret (chip_fault_at 1 0x107 1) = 0x107 \<and>
   lfs_erase cfg 0 (bus_on (chip_fault_at 1 0x107)) =
     Some (0, \<lparr>trace =
        [Transmit \<lparr>length_bits = 8, rxlength = 0, tx_buffer = [0x06]\<rparr>,
         Transmit \<lparr>length_bits = 32, rxlength = 0, tx_buffer = [0xD8, 0x00, 0x00, 0x00]\<rparr>,
         Transmit wait_ready_txn, VTaskDelay 1],
        xfers = 3, chip = chip_fault_at 1 0x107\<rparr>)"
proof -
  have r: "\<not> busy (rx_data (chip_fault_at 1 0x107 2) 0)"
    by (simp add: chip_fault_at_def busy_def)
  show ?thesis
    using lfs_erase_idle[of "chip_fault_at 1 0x107" cfg 0, OF r]
    by (simp add: chip_fault_at_def)
qed

lemma wait_ready_after:
  assumes "\<exists>i. \<not> busy (status_at s (n + i))"
  shows "\<exists>k. wait_ready (s\<lparr>trace := t, xfers := xfers s + n\<rparr>) =
           Some (polls (Suc k) (s\<lparr>trace := t, xfers := xfers s + n\<rparr>))"
proof -
  from assms obtain i where "\<not> busy (status_at (s\<lparr>trace := t, xfers := xfers s + n\<rparr>) i)"
    by (auto simp: status_at_later)
  then show ?thesis by (rule wait_ready_eventually)
qed

lemma be_nat_col: "be_nat [ucast (drop_bit 8 col), ucast col] = unat col" for col :: u16
proof -
  have lo: "unat (ucast col :: u8) = unat col mod 256"
    by (simp add: unsigned_ucast_eq take_bit_eq_mod)
  have "unat col < 65536" using unsigned_less[of col] by simp
  then have d: "unat col div 256 mod 256 = unat col div 256" by simp
  have hi: "unat (ucast (drop_bit 8 col) :: u8) = unat col div 256"
    using d by (simp add: unsigned_ucast_eq take_bit_eq_mod drop_bit_eq_div unat_div)
  have "be_nat [ucast (drop_bit 8 col), ucast col] =
          unat (ucast (drop_bit 8 col) :: u8) * 256 + unat (ucast col :: u8)"
    unfolding be_nat_def by simp
  also have "\<dots> = unat col div 256 * 256 + unat col mod 256"
    by (simp only: lo hi)
  also have "\<dots> = unat col" by simp
  finally show ?thesis .
qed

lemma be_nat_lfs_col:
  "be_nat [ucast (drop_bit 8 (lfs_col offset)), ucast (lfs_col offset)] =
     unat offset mod unat PAGE_SIZE"
  by (simp add: be_nat_col unat_lfs_col PAGE_SIZE_def)

lemma be_nat_lfs_page:
  "be_nat [ucast (drop_bit 16 (lfs_page block offset)), ucast (drop_bit 8 (lfs_page block offset)),
           ucast (lfs_page block offset)] =
     (unat block * unat PAGES_PER_BLOCK + unat offset div unat PAGE_SIZE) mod 2 ^ 24"
proof -
  have "be_nat [ucast (drop_bit 16 (lfs_page block offset)),
                ucast (drop_bit 8 (lfs_page block offset)), ucast (lfs_page block offset)] =
          unat (lfs_page block offset) mod 2 ^ 24"
    by (rule be_nat_row)
  also have "\<dots> = (unat block * 64 + unat offset div 2048) mod 2 ^ 32 mod 2 ^ 24"
    by (simp only: unat_lfs_page)
  also have "\<dots> = (unat block * 64 + unat offset div 2048) mod 2 ^ 24"
    by (rule mod_mod_cancel) simp
  finally show ?thesis by (simp add: PAGES_PER_BLOCK_def PAGE_SIZE_def)
qed

lemma trace_polls_bytes:
  "trace (polls n s) = trace s @
     concat (replicate n
       [Transmit \<lparr>length_bits = 16, rxlength = 0, tx_buffer = [0x0F, 0xC0]\<rparr>, VTaskDelay 1])"
  by (simp add: trace_polls wait_ready_txn_bytes)

text \<open>
  C4, as the code has it. No hook looks at the geometry. For every 32-bit block and
  offset, in range or not, each hook sends its commands and returns 0 as soon as the chip
  reports ready after them:
  \<^item> \<open>lfs_erase\<close> sends write-enable, the block-erase command and the status polls; the
    three address bytes hold \<open>block * PAGES_PER_BLOCK\<close> cut to 24 bits;
  \<^item> \<open>lfs_prog\<close>, given a buffer that holds \<open>size\<close> bytes, sends the load-program command
    with the column and those bytes, then write-enable, program-execute and the polls;
  \<^item> \<open>lfs_read\<close> sends page-data-read, the polls and the read-data command with the
    column, and hands back \<open>size\<close> bytes.
  The column bytes hold \<open>offset mod PAGE_SIZE\<close>, the three page bytes
  \<open>block * PAGES_PER_BLOCK + offset div PAGE_SIZE\<close> cut to 24 bits.
\<close>

theorem lfs_hooks_accept_any_address:
  "((\<exists>i. \<not> busy (status_at s (2 + i))) \<longrightarrow>
      (\<exists>s' addr k. lfs_erase c block s = Some (0, s') \<and>
         trace s' = trace s @
           [Transmit \<lparr>length_bits = 8, rxlength = 0, tx_buffer = [0x06]\<rparr>,
            Transmit \<lparr>length_bits = 32, rxlength = 0, tx_buffer = 0xD8 # addr\<rparr>] @
           concat (replicate (Suc k)
             [Transmit \<lparr>length_bits = 16, rxlength = 0, tx_buffer = [0x0F, 0xC0]\<rparr>,
              VTaskDelay 1]) \<and>
         length addr = 3 \<and>
         be_nat addr = (unat block * unat PAGES_PER_BLOCK) mod 2 ^ 24)) \<and>
   (unat sz \<le> length buffer \<and> (\<exists>i. \<not> busy (status_at s (3 + i))) \<longrightarrow>
      (\<exists>s' col addr k. lfs_prog c block offset buffer sz s = Some (0, s') \<and>
         trace s' = trace s @
           [Transmit \<lparr>length_bits = (4 + sz) * 8, rxlength = 0,
                      tx_buffer = 0x02 # col @ 0x00 # take (unat sz) buffer\<rparr>,
            Transmit \<lparr>length_bits = 8, rxlength = 0, tx_buffer = [0x06]\<rparr>,
            Transmit \<lparr>length_bits = 32, rxlength = 0, tx_buffer = 0x10 # addr\<rparr>] @
           concat (replicate (Suc k)
             [Transmit \<lparr>length_bits = 16, rxlength = 0, tx_buffer = [0x0F, 0xC0]\<rparr>,
              VTaskDelay 1]) \<and>
         length col = 2 \<and> be_nat col = unat offset mod unat PAGE_SIZE \<and>
         length addr = 3 \<and>
         be_nat addr =
           (unat block * unat PAGES_PER_BLOCK + unat offset div unat PAGE_SIZE) mod 2 ^ 24)) \<and>
   ((\<exists>i. \<not> busy (status_at s (1 + i))) \<longrightarrow>
      (\<exists>buf s' col addr k. lfs_read c block offset sz s = Some (0, buf, s') \<and>
         trace s' = trace s @
           [Transmit \<lparr>length_bits = 32, rxlength = 0, tx_buffer = 0x13 # addr\<rparr>] @
           concat (replicate (Suc k)
             [Transmit \<lparr>length_bits = 16, rxlength = 0, tx_buffer = [0x0F, 0xC0]\<rparr>,
              VTaskDelay 1]) @
           [Transmit \<lparr>length_bits = (4 + sz) * 8, rxlength = sz * 8,
                      tx_buffer = 0x03 # col @ [0x00]\<rparr>] \<and>
         length col = 2 \<and> be_nat col = unat offset mod unat PAGE_SIZE \<and>
         length addr = 3 \<and>
         be_nat addr =
           (unat block * unat PAGES_PER_BLOCK + unat offset div unat PAGE_SIZE) mod 2 ^ 24 \<and>
         length buf = unat sz))"
proof (intro conjI impI)
  let ?row = "[ucast (drop_bit 16 (block * 64)), ucast (drop_bit 8 (block * 64)),
               ucast (block * 64)] :: u8 list"
  assume "\<exists>i. \<not> busy (status_at s (2 + i))"
  from wait_ready_after[OF this] obtain k where
    "erase_block block s = Some (polls (Suc k) (s\<lparr>trace := trace s @
        [Transmit \<lparr>length_bits = 8, rxlength = 0, tx_buffer = [0x06]\<rparr>,
         Transmit \<lparr>length_bits = 32, rxlength = 0, tx_buffer = 0xD8 # ?row\<rparr>],
        xfers := xfers s + 2\<rparr>))" (is "_ = Some ?s'")
    unfolding erase_block_eq by auto
  then have "lfs_erase c block s = Some (0, ?s')"
    by (simp add: lfs_erase_eq del: polls.simps)
  moreover have "trace ?s' = trace s @
           [Transmit \<lparr>length_bits = 8, rxlength = 0, tx_buffer = [0x06]\<rparr>,
            Transmit \<lparr>length_bits = 32, rxlength = 0, tx_buffer = 0xD8 # ?row\<rparr>] @
           concat (replicate (Suc k)
             [Transmit \<lparr>length_bits = 16, rxlength = 0, tx_buffer = [0x0F, 0xC0]\<rparr>,
              VTaskDelay 1])"
    by (simp add: trace_polls_bytes del: polls.simps replicate.simps)
  moreover have "length ?row = 3" by simp
  ultimately show "\<exists>s' addr k. lfs_erase c block s = Some (0, s') \<and>
         trace s' = trace s @
           [Transmit \<lparr>length_bits = 8, rxlength = 0, tx_buffer = [0x06]\<rparr>,
            Transmit \<lparr>length_bits = 32, rxlength = 0, tx_buffer = 0xD8 # addr\<rparr>] @
           concat (replicate (Suc k)
             [Transmit \<lparr>length_bits = 16, rxlength = 0, tx_buffer = [0x0F, 0xC0]\<rparr>,
              VTaskDelay 1]) \<and>
         length addr = 3 \<and>
         be_nat addr = (unat block * unat PAGES_PER_BLOCK) mod 2 ^ 24"
    using be_nat_block_row[of block] by blast
next
  let ?page = "lfs_page block offset"
  let ?addr = "[ucast (drop_bit 16 ?page), ucast (drop_bit 8 ?page), ucast ?page] :: u8 list"
  let ?col = "[ucast (drop_bit 8 (lfs_col offset)), ucast (lfs_col offset)] :: u8 list"
  let ?s0 = "load_program_data (lfs_col offset) buffer sz s"
  assume "unat sz \<le> length buffer \<and> (\<exists>i. \<not> busy (status_at s (3 + i)))"
  then obtain i where "\<not> busy (status_at s (3 + i))" by blast
  moreover have e: "3 + i = Suc (Suc (Suc i))" by simp
  ultimately have "\<not> busy (status_at s (Suc (2 + i)))" by (simp add: e)
  then have "\<exists>i. \<not> busy (status_at s (Suc (2 + i)))" by blast
  then have "\<exists>i. \<not> busy (status_at ?s0 (2 + i))"
    by (simp only: status_at_load_program_data)
  from wait_ready_after[OF this] obtain k where
    "program_execute ?page ?s0 = Some (polls (Suc k) (?s0\<lparr>trace := trace ?s0 @
        [Transmit \<lparr>length_bits = 8, rxlength = 0, tx_buffer = [0x06]\<rparr>,
         Transmit \<lparr>length_bits = 32, rxlength = 0, tx_buffer = 0x10 # ?addr\<rparr>],
        xfers := xfers ?s0 + 2\<rparr>))" (is "_ = Some ?s'")
    unfolding program_execute_eq by auto
  then have "lfs_prog c block offset buffer sz s = Some (0, ?s')"
    by (simp add: lfs_prog_eq del: polls.simps)
  moreover have "trace ?s' = trace s @
           [Transmit \<lparr>length_bits = (4 + sz) * 8, rxlength = 0,
                      tx_buffer = 0x02 # ?col @ 0x00 # take (unat sz) buffer\<rparr>,
            Transmit \<lparr>length_bits = 8, rxlength = 0, tx_buffer = [0x06]\<rparr>,
            Transmit \<lparr>length_bits = 32, rxlength = 0, tx_buffer = 0x10 # ?addr\<rparr>] @
           concat (replicate (Suc k)
             [Transmit \<lparr>length_bits = 16, rxlength = 0, tx_buffer = [0x0F, 0xC0]\<rparr>,
              VTaskDelay 1])"
    by (simp add: trace_polls_bytes load_program_data_eq del: polls.simps replicate.simps)
  moreover have "length ?col = 2" "length ?addr = 3" by simp_all
  ultimately show "\<exists>s' col addr k. lfs_prog c block offset buffer sz s = Some (0, s') \<and>
         trace s' = trace s @
           [Transmit \<lparr>length_bits = (4 + sz) * 8, rxlength = 0,
                      tx_buffer = 0x02 # col @ 0x00 # take (unat sz) buffer\<rparr>,
            Transmit \<lparr>length_bits = 8, rxlength = 0, tx_buffer = [0x06]\<rparr>,
            Transmit \<lparr>length_bits = 32, rxlength = 0, tx_buffer = 0x10 # addr\<rparr>] @
           concat (replicate (Suc k)
             [Transmit \<lparr>length_bits = 16, rxlength = 0, tx_buffer = [0x0F, 0xC0]\<rparr>,
              VTaskDelay 1]) \<and>
         length col = 2 \<and> be_nat col = unat offset mod unat PAGE_SIZE \<and>
         length addr = 3 \<and>
         be_nat addr =
           (unat block * unat PAGES_PER_BLOCK + unat offset div unat PAGE_SIZE) mod 2 ^ 24"
    using be_nat_lfs_col[of offset] be_nat_lfs_page[of block offset] by blast
next
  let ?page = "lfs_page block offset"
  let ?addr = "[ucast (drop_bit 16 ?page), ucast (drop_bit 8 ?page), ucast ?page] :: u8 list"
  let ?col = "[ucast (drop_bit 8 (lfs_col offset)), ucast (lfs_col offset)] :: u8 list"
  assume "\<exists>i. \<not> busy (status_at s (1 + i))"
  from wait_ready_after[OF this] obtain k where
    "page_data_read ?page s = Some (polls (Suc k) (s\<lparr>trace := trace s @
        [Transmit \<lparr>length_bits = 32, rxlength = 0, tx_buffer = 0x13 # ?addr\<rparr>],
        xfers := xfers s + 1\<rparr>))" (is "_ = Some ?s1")
    unfolding page_data_read_eq by auto
  then have "lfs_read c block offset sz s =
      Some (0, fst (read_data (lfs_col offset) sz ?s1), snd (read_data (lfs_col offset) sz ?s1))"
    by (simp add: lfs_read_eq del: polls.simps)
  moreover have "length (fst (read_data (lfs_col offset) sz ?s1)) = unat sz"
    by (simp add: read_data_eq del: polls.simps)
  moreover have "trace (snd (read_data (lfs_col offset) sz ?s1)) = trace s @
           [Transmit \<lparr>length_bits = 32, rxlength = 0, tx_buffer = 0x13 # ?addr\<rparr>] @
           concat (replicate (Suc k)
             [Transmit \<lparr>length_bits = 16, rxlength = 0, tx_buffer = [0x0F, 0xC0]\<rparr>,
              VTaskDelay 1]) @
           [Transmit \<lparr>length_bits = (4 + sz) * 8, rxlength = sz * 8,
                      tx_buffer = 0x03 # ?col @ [0x00]\<rparr>]"
    by (simp add: read_data_eq trace_polls_bytes del: polls.simps replicate.simps)
  moreover have "length ?col = 2" "length ?addr = 3" by simp_all
  ultimately show "\<exists>buf s' col addr k. lfs_read c block offset sz s = Some (0, buf, s') \<and>
         trace s' = trace s @
           [Transmit \<lparr>length_bits = 32, rxlength = 0, tx_buffer = 0x13 # addr\<rparr>] @
           concat (replicate (Suc k)
             [Transmit \<lparr>length_bits = 16, rxlength = 0, tx_buffer = [0x0F, 0xC0]\<rparr>,
              VTaskDelay 1]) @
           [Transmit \<lparr>length_bits = (4 + sz) * 8, rxlength = sz * 8,
                      tx_buffer = 0x03 # col @ [0x00]\<rparr>] \<and>
         length col = 2 \<and> be_nat col = unat offset mod unat PAGE_SIZE \<and>
         length addr = 3 \<and>
         be_nat addr =
           (unat block * unat PAGES_PER_BLOCK + unat offset div unat PAGE_SIZE) mod 2 ^ 24 \<and>
         length buf = unat sz"
    using be_nat_lfs_col[of offset] be_nat_lfs_page[of block offset] by blast
qed

theorem lfs_hooks_accept_any_address_witness:
  "unat (block_count cfg) \<le> unat (70000 :: u32) \<and>
   unat (block_size cfg) \<le> unat (200000 :: u32) \<and>
   \<not> busy (status_at (bus_on (chip_busy_for 0)) (2 + 0)) \<and>
   (\<exists>s' addr k. lfs_erase cfg 70000 (bus_on (chip_busy_for 0)) = Some (0, s') \<and>
      trace s' =
        [Transmit \<lparr>length_bits = 8, rxlength = 0, tx_buffer = [0x06]\<rparr>,
         Transmit \<lparr>length_bits = 32, rxlength = 0, tx_buffer = 0xD8 # addr\<rparr>] @
        concat (replicate (Suc k)
          [Transmit \<lparr>length_bits = 16, rxlength = 0, tx_buffer = [0x0F, 0xC0]\<rparr>,
           VTaskDelay 1]) \<and>
      length addr = 3 \<and> be_nat addr = 4480000) \<and>
   unat (5 :: u32) \<le> length hello \<and>
   \<not> busy (status_at (bus_on (chip_busy_for 0)) (3 + 0)) \<and>
   (\<exists>s' col addr k. lfs_prog cfg 70000 200000 hello 5 (bus_on (chip_busy_for 0)) = Some (0, s') \<and>
      trace s' =
        [Transmit \<lparr>length_bits = 72, rxlength = 0,
                   tx_buffer = 0x02 # col @ 0x00 # hello\<rparr>,
         Transmit \<lparr>length_bits = 8, rxlength = 0, tx_buffer = [0x06]\<rparr>,
         Transmit \<lparr>length_bits = 32, rxlength = 0, tx_buffer = 0x10 # addr\<rparr>] @
        concat (replicate (Suc k)
          [Transmit \<lparr>length_bits = 16, rxlength = 0, tx_buffer = [0x0F, 0xC0]\<rparr>,
           VTaskDelay 1]) \<and>
      length col = 2 \<and> be_nat col = 1344 \<and> length addr = 3 \<and> be_nat addr = 4480097) \<and>
   \<not> busy (status_at (bus_on (chip_busy_for 0)) (1 + 0)) \<and>
   (\<exists>buf s' col addr k. lfs_read cfg 70000 200000 5 (bus_on (chip_busy_for 0)) = Some (0, buf, s') \<and>
      trace s' =
        [Transmit \<lparr>length_bits = 32, rxlength = 0, tx_buffer = 0x13 # addr\<rparr>] @
        concat (replicate (Suc k)
          [Transmit \<lparr>length_bits = 16, rxlength = 0, tx_buffer = [0x0F, 0xC0]\<rparr>,
           VTaskDelay 1]) @
        [Transmit \<lparr>length_bits = 72, rxlength = 40, tx_buffer = 0x03 # col @ [0x00]\<rparr>] \<and>
      length col = 2 \<and> be_nat col = 1344 \<and> length addr = 3 \<and> be_nat addr = 4480097 \<and>
      length buf = 5)"
proof -
  let ?s = "bus_on (chip_busy_for 0)"
  note inst = lfs_hooks_accept_any_address[of ?s cfg 70000 5 hello 200000]
  have g: "unat (block_count cfg) \<le> unat (70000 :: u32)"
          "unat (block_size cfg) \<le> unat (200000 :: u32)"
    by (simp_all add: cfg_def BLOCK_SIZE_def PAGE_SIZE_def PAGES_PER_BLOCK_def)
  have r: "\<not> busy (status_at ?s (2 + 0))" "\<not> busy (status_at ?s (3 + 0))"
          "\<not> busy (status_at ?s (1 + 0))"
    by (simp_all add: status_busy_for busy_def)
  have h: "unat (5 :: u32) \<le> length hello" by (simp add: hello_def)
  have t: "trace ?s = []" by (simp add: bus_on_def)
  have n: "(unat (70000 :: u32) * unat PAGES_PER_BLOCK) mod 2 ^ 24 = 4480000"
          "unat (200000 :: u32) mod unat PAGE_SIZE = 1344"
          "(unat (70000 :: u32) * unat PAGES_PER_BLOCK + unat (200000 :: u32) div unat PAGE_SIZE)
             mod 2 ^ 24 = 4480097"
          "(4 + 5) * 8 = (72 :: u32)" "5 * 8 = (40 :: u32)" "take (unat (5 :: u32)) hello = hello"
    by (simp_all add: PAGES_PER_BLOCK_def PAGE_SIZE_def hello_def)
  have e: "\<exists>s' addr k. lfs_erase cfg 70000 ?s = Some (0, s') \<and>
      trace s' =
        [Transmit \<lparr>length_bits = 8, rxlength = 0, tx_buffer = [0x06]\<rparr>,
         Transmit \<lparr>length_bits = 32, rxlength = 0, tx_buffer = 0xD8 # addr\<rparr>] @
        concat (replicate (Suc k)
          [Transmit \<lparr>length_bits = 16, rxlength = 0, tx_buffer = [0x0F, 0xC0]\<rparr>,
           VTaskDelay 1]) \<and>
      length addr = 3 \<and> be_nat addr = 4480000"
    using inst r(1) unfolding t n append_Nil by blast
  have p: "\<exists>s' col addr k. lfs_prog cfg 70000 200000 hello 5 ?s = Some (0, s') \<and>
      trace s' =
        [Transmit \<lparr>length_bits = 72, rxlength = 0,
                   tx_buffer = 0x02 # col @ 0x00 # hello\<rparr>,
         Transmit \<lparr>length_bits = 8, rxlength = 0, tx_buffer = [0x06]\<rparr>,
         Transmit \<lparr>length_bits = 32, rxlength = 0, tx_buffer = 0x10 # addr\<rparr>] @
        concat (replicate (Suc k)
          [Transmit \<lparr>length_bits = 16, rxlength = 0, tx_buffer = [0x0F, 0xC0]\<rparr>,
           VTaskDelay 1]) \<and>
      length col = 2 \<and> be_nat col = 1344 \<and> length addr = 3 \<and> be_nat addr = 4480097"
    using inst r(2) h unfolding t n append_Nil by blast
  have d: "\<exists>buf s' col addr k. lfs_read cfg 70000 200000 5 ?s = Some (0, buf, s') \<and>
      trace s' =
        [Transmit \<lparr>length_bits = 32, rxlength = 0, tx_buffer = 0x13 # addr\<rparr>] @
        concat (replicate (Suc k)
          [Transmit \<lparr>length_bits = 16, rxlength = 0, tx_buffer = [0x0F, 0xC0]\<rparr>,
           VTaskDelay 1]) @
        [Transmit \<lparr>length_bits = 72, rxlength = 40, tx_buffer = 0x03 # col @ [0x00]\<rparr>] \<and>
      length col = 2 \<and> be_nat col = 1344 \<and> length addr = 3 \<and> be_nat addr = 4480097 \<and>
      length buf = 5"
    using inst r(3) unfolding t n append_Nil by (simp only: unat_numeral) auto
  from g r h e p d show ?thesis by blast
qed

text \<open>
  Block 1024 of a device with 1024 blocks: \<open>lfs_erase\<close> sends the erase command for row
  \<open>0x010000\<close> and returns 0.
\<close>

theorem lfs_erase_out_of_range_counterexample:
  "block_count cfg = 1024 \<and>
   lfs_erase cfg 1024 (bus_on (chip_busy_for 0)) =
     Some (0, \<lparr>trace =
        [Transmit \<lparr>length_bits = 8, rxlength = 0, tx_buffer = [0x06]\<rparr>,
         Transmit \<lparr>length_bits = 32, rxlength = 0, tx_buffer = [0xD8, 0x01, 0x00, 0x00]\<rparr>,
         Transmit wait_ready_txn, VTaskDelay 1],
        xfers = 3, chip = chip_busy_for 0\<rparr>)"
proof -
  have r: "\<not> busy (rx_data (chip_busy_for 0 2) 0)"
    by (simp add: chip_busy_for_def busy_def)
  show ?thesis
    using lfs_erase_idle[of "chip_busy_for 0" cfg 1024, OF r]
    by (simp add: cfg_def)
qed

text \<open>
  C8. \<open>lfs_sync\<close> returns 0 and does nothing else: no event is added and the bus state
  is the one it was called in.
\<close>

theorem lfs_sync_no_effect: "lfs_sync c s = Some (0, s)"
  by (simp add: lfs_sync_def)

end
